theory Spec2Isabelle
  imports Main "HOL-Library.Word"
begin

unbundle bit_operations_syntax

section \<open>Library functions used by main.go\<close>

subsection \<open>crypto/sha256 (FIPS 180-4)\<close>

text \<open>
  A \<open>uint32\<close> is an \<open>int\<close> in the range \<open>0 ..< 2 ^ 32\<close>; every addition and every
  left shift is reduced modulo \<open>2 ^ 32\<close> where the Go code wraps. A byte is an \<open>int\<close> in
  \<open>0 ..< 256\<close>.
\<close>

type_synonym u32 = int
type_synonym byte = int

definition add32 :: "u32 \<Rightarrow> u32 \<Rightarrow> u32" where
  "add32 x y = (x + y) mod 4294967296"

definition rotr :: "nat \<Rightarrow> u32 \<Rightarrow> u32" where
  "rotr n x = (x div 2 ^ n) OR ((x * 2 ^ (32 - n)) mod 4294967296)"

definition shr :: "nat \<Rightarrow> u32 \<Rightarrow> u32" where
  "shr n x = x div 2 ^ n"

definition ch :: "u32 \<Rightarrow> u32 \<Rightarrow> u32 \<Rightarrow> u32" where
  "ch x y z = (x AND y) XOR ((x XOR 4294967295) AND z)"

definition maj :: "u32 \<Rightarrow> u32 \<Rightarrow> u32 \<Rightarrow> u32" where
  "maj x y z = (x AND y) XOR (x AND z) XOR (y AND z)"

definition bsig0 :: "u32 \<Rightarrow> u32" where
  "bsig0 x = rotr 2 x XOR rotr 13 x XOR rotr 22 x"

definition bsig1 :: "u32 \<Rightarrow> u32" where
  "bsig1 x = rotr 6 x XOR rotr 11 x XOR rotr 25 x"

definition ssig0 :: "u32 \<Rightarrow> u32" where
  "ssig0 x = rotr 7 x XOR rotr 18 x XOR shr 3 x"

definition ssig1 :: "u32 \<Rightarrow> u32" where
  "ssig1 x = rotr 17 x XOR rotr 19 x XOR shr 10 x"

text \<open>The round constants, eight rounds to a row.\<close>

definition K256 :: "u32 list" where
  "K256 = concat
    [[0x428a2f98, 0x71374491, 0xb5c0fbcf, 0xe9b5dba5, 0x3956c25b, 0x59f111f1, 0x923f82a4, 0xab1c5ed5],
     [0xd807aa98, 0x12835b01, 0x243185be, 0x550c7dc3, 0x72be5d74, 0x80deb1fe, 0x9bdc06a7, 0xc19bf174],
     [0xe49b69c1, 0xefbe4786, 0x0fc19dc6, 0x240ca1cc, 0x2de92c6f, 0x4a7484aa, 0x5cb0a9dc, 0x76f988da],
     [0x983e5152, 0xa831c66d, 0xb00327c8, 0xbf597fc7, 0xc6e00bf3, 0xd5a79147, 0x06ca6351, 0x14292967],
     [0x27b70a85, 0x2e1b2138, 0x4d2c6dfc, 0x53380d13, 0x650a7354, 0x766a0abb, 0x81c2c92e, 0x92722c85],
     [0xa2bfe8a1, 0xa81a664b, 0xc24b8b70, 0xc76c51a3, 0xd192e819, 0xd6990624, 0xf40e3585, 0x106aa070],
     [0x19a4c116, 0x1e376c08, 0x2748774c, 0x34b0bcb5, 0x391c0cb3, 0x4ed8aa4a, 0x5b9cca4f, 0x682e6ff3],
     [0x748f82ee, 0x78a5636f, 0x84c87814, 0x8cc70208, 0x90befffa, 0xa4506ceb, 0xbef9a3f7, 0xc67178f2]]"

type_synonym digest_state = "u32 \<times> u32 \<times> u32 \<times> u32 \<times> u32 \<times> u32 \<times> u32 \<times> u32"

definition init256 :: digest_state where
  "init256 = (0x6a09e667, 0xbb67ae85, 0x3c6ef372, 0xa54ff53a,
              0x510e527f, 0x9b05688c, 0x1f83d9ab, 0x5be0cd19)"

fun round256 :: "digest_state \<Rightarrow> u32 \<Rightarrow> u32 \<Rightarrow> digest_state" where
  "round256 (a, b, c, d, e, f, g, h) k w =
     (let t1 = add32 (add32 (add32 (add32 h (bsig1 e)) (ch e f g)) k) w;
          t2 = add32 (bsig0 a) (maj a b c)
      in (add32 t1 t2, a, b, c, add32 d t1, e, f, g))"

text \<open>
  The message schedule is kept as a window of sixteen words: the head is the word of the
  current round, and the word sixteen rounds ahead is appended.
\<close>

fun next_w :: "u32 list \<Rightarrow> u32" where
  "next_w (w0 # w1 # w2 # w3 # w4 # w5 # w6 # w7 # w8 # w9 # w10 # w11 # w12 # w13 # w14 # ws) =
     add32 (add32 (add32 (ssig1 w14) w9) (ssig0 w1)) w0"
| "next_w _ = 0"

fun rounds256 :: "u32 list \<Rightarrow> u32 list \<Rightarrow> digest_state \<Rightarrow> digest_state" where
  "rounds256 [] w s = s"
| "rounds256 (k # ks) [] s = s"
| "rounds256 (k # ks) (w0 # ws) s =
     rounds256 ks (ws @ [next_w (w0 # ws)]) (round256 s k w0)"

fun add_state :: "digest_state \<Rightarrow> digest_state \<Rightarrow> digest_state" where
  "add_state (a, b, c, d, e, f, g, h) (a', b', c', d', e', f', g', h') =
     (add32 a a', add32 b b', add32 c c', add32 d d',
      add32 e e', add32 f f', add32 g g', add32 h h')"

definition block256 :: "digest_state \<Rightarrow> u32 list \<Rightarrow> digest_state" where
  "block256 s w = add_state s (rounds256 K256 w s)"

fun be_words :: "byte list \<Rightarrow> u32 list" where
  "be_words (b0 # b1 # b2 # b3 # bs) =
     (b0 * 16777216 + b1 * 65536 + b2 * 256 + b3) # be_words bs"
| "be_words _ = []"

fun blocks256 :: "digest_state \<Rightarrow> u32 list \<Rightarrow> digest_state" where
  "blocks256 s [] = s"
| "blocks256 s (w # ws) = blocks256 (block256 s (take 16 (w # ws))) (drop 16 (w # ws))"

definition be_bytes64 :: "int \<Rightarrow> byte list" where
  "be_bytes64 n = map (\<lambda>i. (n div 2 ^ (8 * i)) mod 256) [7, 6, 5, 4, 3, 2, 1, 0]"

definition pad256 :: "byte list \<Rightarrow> byte list" where
  "pad256 m = m @ [128] @ replicate ((119 - length m mod 64) mod 64) 0
                @ be_bytes64 (8 * int (length m))"

definition be_bytes32 :: "u32 \<Rightarrow> byte list" where
  "be_bytes32 x = [x div 16777216 mod 256, x div 65536 mod 256, x div 256 mod 256, x mod 256]"

fun state_bytes :: "digest_state \<Rightarrow> byte list" where
  "state_bytes (a, b, c, d, e, f, g, h) =
     be_bytes32 a @ be_bytes32 b @ be_bytes32 c @ be_bytes32 d @
     be_bytes32 e @ be_bytes32 f @ be_bytes32 g @ be_bytes32 h"

definition sha256 :: "byte list \<Rightarrow> byte list" where
  "sha256 m = state_bytes (blocks256 init256 (be_words (pad256 m)))"

subsection \<open>encoding/hex, strconv and fmt\<close>

definition hexdigit :: "int \<Rightarrow> char" where
  "hexdigit n = ''0123456789abcdef'' ! nat n"

definition EncodeToString :: "byte list \<Rightarrow> string" where
  "EncodeToString bs = concat (map (\<lambda>b. [hexdigit (b div 16), hexdigit (b mod 16)]) bs)"

text \<open>\<open>[]byte(record)\<close>: a Go string is its bytes.\<close>

definition bytes_of :: "string \<Rightarrow> byte list" where
  "bytes_of s = map of_char s"

text \<open>
  Go's \<open>int\<close> is taken at 64 bits, as on the platforms Go supports for servers:
  \<open>+\<close> wraps and comparisons are signed.
\<close>

type_synonym goint = "64 word"

function digits :: "nat \<Rightarrow> string" where
  "digits n = (if n < 10 then [''0123456789'' ! n]
               else digits (n div 10) @ [''0123456789'' ! (n mod 10)])"
  by pat_completeness auto
termination
  by (relation "measure (\<lambda>n. n)") auto

declare digits.simps [simp del]

text \<open>\<open>strconv.Itoa\<close>: the decimal rendering of a signed integer.\<close>

definition Itoa :: "goint \<Rightarrow> string" where
  "Itoa i = (if sint i < 0 then CHR ''-'' # digits (nat (- sint i)) else digits (nat (sint i)))"

section \<open>The data model of main.go\<close>

record Transaction =
  Sender :: string
  Receiver :: string
  Amount :: goint

record Block =
  Index :: goint
  Timestamp :: string
  Transactions :: "Transaction list"
  PrevHash :: string
  Hash :: string
  Nonce :: string
  Difficulty :: goint

definition difficulty :: goint where
  "difficulty = 1"

text \<open>
  \<open>fmt.Sprint\<close> of a \<open>[]Transaction\<close>: each struct is rendered with the verb \<open>%v\<close> as its
  fields between braces, separated by spaces; the slice as its elements between brackets,
  separated by spaces. A nil slice and an empty one are both \<open>[]\<close>.
\<close>

definition sprintTransaction :: "Transaction \<Rightarrow> string" where
  "sprintTransaction t = ''{'' @ Sender t @ '' '' @ Receiver t @ '' '' @ Itoa (Amount t) @ ''}''"

fun joinSpace :: "string list \<Rightarrow> string" where
  "joinSpace [] = []"
| "joinSpace [x] = x"
| "joinSpace (x # y # ys) = x @ '' '' @ joinSpace (y # ys)"

definition Sprint :: "Transaction list \<Rightarrow> string" where
  "Sprint ts = ''['' @ joinSpace (map sprintTransaction ts) @ '']''"

section \<open>Hashing and validation\<close>

definition hashRecord :: "Block \<Rightarrow> string" where
  "hashRecord block =
     Itoa (Index block) @ Timestamp block @ PrevHash block @ Sprint (Transactions block) @ Nonce block"

definition calculateHash :: "Block \<Rightarrow> string" where
  "calculateHash block = EncodeToString (sha256 (bytes_of (hashRecord block)))"

text \<open>
  A run-time panic of Go is a value: slicing a string beyond its length, indexing a slice
  out of range.
\<close>

datatype panic = SliceBoundsOutOfRange | IndexOutOfRange

text \<open>The loop of \<open>isHashValid\<close> that builds the prefix of zeros.\<close>

function zeroPrefix :: "goint \<Rightarrow> goint \<Rightarrow> string \<Rightarrow> string" where
  "zeroPrefix i d prefix = (if i <s d then zeroPrefix (i + 1) d (prefix @ ''0'') else prefix)"
  by pat_completeness auto

termination zeroPrefix
proof (relation "measure (\<lambda>(i, d, prefix). nat (sint d - sint i))")
  show "wf (measure (\<lambda>(i, d, prefix). nat (sint d - sint i)))"
    by simp
next
  fix i d :: goint and prefix :: string
  assume less: "i <s d"
  have "sint i < sint d"
    using less by (simp add: word_sless_alt)
  moreover have "sint d < 2 ^ 63"
    using sint_lt [of d] by simp
  moreover have "- (2 ^ 63) \<le> sint i"
    using sint_ge [of i] by simp
  ultimately have "signed_take_bit 63 (sint i + 1) = sint i + 1"
    by (intro signed_take_bit_int_eq_self) auto
  then have "sint (i + 1) = sint i + 1"
    by (simp add: sint_word_add)
  with \<open>sint i < sint d\<close>
  show "((i + 1, d, prefix @ ''0''), (i, d, prefix))
      \<in> measure (\<lambda>(i, d, prefix). nat (sint d - sint i))"
    by simp
qed

declare zeroPrefix.simps [simp del]

text \<open>
  \<open>hash[:difficulty]\<close> panics unless \<open>0 \<le> difficulty \<le> len(hash)\<close>; the prefix has been
  built before.
\<close>

definition isHashValid :: "string \<Rightarrow> goint \<Rightarrow> panic + bool" where
  "isHashValid hash d =
     (let prefix = zeroPrefix 0 d []
      in if sint d < 0 \<or> int (length hash) < sint d then Inl SliceBoundsOutOfRange
         else Inr (take (nat (sint d)) hash = prefix))"

definition isBlockValid :: "Block \<Rightarrow> Block \<Rightarrow> bool" where
  "isBlockValid newBlock oldBlock =
     (if Index oldBlock + 1 \<noteq> Index newBlock then False
      else if Hash oldBlock \<noteq> PrevHash newBlock then False
      else if calculateHash newBlock \<noteq> Hash newBlock then False
      else True)"

definition isTransactionValid :: "Transaction \<Rightarrow> bool" where
  "isTransactionValid transaction =
     (if Sender transaction = [] \<or> Receiver transaction = [] \<or> Amount transaction <=s 0
      then False else True)"

section \<open>Mining and block construction\<close>

text \<open>
  The loop \<open>for i := 0; ; i++\<close> of \<open>generateBlock\<close>, from the counter \<open>i\<close> on. It has no
  bound: \<open>None\<close> is the search that never ends. \<open>Some (Inl p)\<close> is a panic,
  \<open>Some (Inr b)\<close> the block at the \<open>break\<close>.
\<close>

partial_function (option) mine :: "Block \<Rightarrow> goint \<Rightarrow> (panic + Block) option" where
  "mine newBlock i =
     (let b = newBlock\<lparr>Nonce := Itoa i\<rparr>;
          hash = calculateHash b
      in case isHashValid hash (Difficulty b) of
           Inl p \<Rightarrow> Some (Inl p)
         | Inr ok \<Rightarrow> if ok then Some (Inr (b\<lparr>Hash := hash\<rparr>)) else mine b (i + 1))"

text \<open>
  The block of \<open>generateBlock\<close> before the loop; \<open>now\<close> is what \<open>time.Now().String()\<close>
  returns at the call.
\<close>

definition candidate :: "Block \<Rightarrow> Transaction list \<Rightarrow> string \<Rightarrow> Block" where
  "candidate oldBlock transactions now =
     \<lparr>Index = Index oldBlock + 1, Timestamp = now, Transactions = transactions,
      PrevHash = Hash oldBlock, Hash = [], Nonce = [], Difficulty = difficulty\<rparr>"

definition generateBlock :: "Block \<Rightarrow> Transaction list \<Rightarrow> string \<Rightarrow> (panic + Block) option" where
  "generateBlock oldBlock transactions now = mine (candidate oldBlock transactions now) 0"

section \<open>The ledger and the request handlers\<close>

text \<open>The zero value \<open>Block{}\<close>.\<close>

definition zeroBlock :: Block where
  "zeroBlock = \<lparr>Index = 0, Timestamp = [], Transactions = [], PrevHash = [],
                Hash = [], Nonce = [], Difficulty = 0\<rparr>"

definition genesisBlock :: "string \<Rightarrow> Block" where
  "genesisBlock now =
     \<lparr>Index = 0, Timestamp = now, Transactions = [], PrevHash = [],
      Hash = calculateHash zeroBlock, Nonce = [], Difficulty = difficulty\<rparr>"

text \<open>The global \<open>Blockchain\<close> is passed in and returned.\<close>

definition initializeBlockchain :: "string \<Rightarrow> Block list \<Rightarrow> Block list" where
  "initializeBlockchain now Blockchain = Blockchain @ [genesisBlock now]"

text \<open>
  What a handler writes: \<open>http.Error\<close> with its status and message, the text of a
  successful POST, or the chain that a GET serialises.
\<close>

datatype response = HttpError nat string | Written string | WrittenChain "Block list"

text \<open>
  A request is its method and what \<open>decoder.Decode\<close> makes of its body: \<open>None\<close> where
  decoding fails.
\<close>

record Request =
  Method :: string
  Body :: "Transaction option"

text \<open>
  What serving a request comes to: \<open>None\<close> where it never ends, a panic, or the
  response with the chain it leaves.
\<close>

type_synonym outcome = "(panic + response \<times> Block list) option"

text \<open>
  \<open>json.MarshalIndent\<close> has no error on a slice of structs of strings and integers, so
  the GET handler always writes the chain.
\<close>

definition handleGetBlockchain :: "Block list \<Rightarrow> outcome" where
  "handleGetBlockchain Blockchain = Some (Inr (WrittenChain Blockchain, Blockchain))"

definition handleWriteTransaction :: "string \<Rightarrow> Transaction option \<Rightarrow> Block list \<Rightarrow> outcome" where
  "handleWriteTransaction now body Blockchain =
     (case body of
        None \<Rightarrow> Some (Inr (HttpError 400 ''Invalid request payload'', Blockchain))
      | Some transaction \<Rightarrow>
          if \<not> isTransactionValid transaction
          then Some (Inr (HttpError 400 ''Invalid transaction'', Blockchain))
          else if Blockchain = [] then Some (Inl IndexOutOfRange)
          else (case generateBlock (last Blockchain) [transaction] now of
                  None \<Rightarrow> None
                | Some (Inl p) \<Rightarrow> Some (Inl p)
                | Some (Inr newBlock) \<Rightarrow>
                    if isBlockValid newBlock (last Blockchain)
                    then Some (Inr (Written (''Transaction added to Block '' @ Itoa (Index newBlock) @ [CHR 0x0A]),
                                    Blockchain @ [newBlock]))
                    else Some (Inr (HttpError 500 ''Invalid block'', Blockchain))))"

definition handleAPIRequests :: "string \<Rightarrow> Request \<Rightarrow> Block list \<Rightarrow> outcome" where
  "handleAPIRequests now r Blockchain =
     (if Method r = ''GET'' then handleGetBlockchain Blockchain
      else if Method r = ''POST'' then handleWriteTransaction now (Body r) Blockchain
      else Some (Inr (HttpError 405 ''Method not allowed'', Blockchain)))"

text \<open>
  The ledger states of a run: the chain after \<open>initializeBlockchain\<close>, then after each
  request that is served to its end, one at a time.
\<close>

inductive reachable :: "Block list \<Rightarrow> bool" where
  start: "reachable (initializeBlockchain now [])"
| request: "reachable Blockchain \<Longrightarrow>
            handleAPIRequests now r Blockchain = Some (Inr (resp, Blockchain')) \<Longrightarrow>
            reachable Blockchain'"

section \<open>Notions for stating the properties\<close>

text \<open>
  One pass of the mining loop at counter \<open>i\<close>: the block with its nonce set, the test of
  the \<open>if\<close>, and the block at the \<open>break\<close>.
\<close>

definition attempt :: "Block \<Rightarrow> goint \<Rightarrow> Block" where
  "attempt b i = b\<lparr>Nonce := Itoa i\<rparr>"

definition meetsDifficulty :: "Block \<Rightarrow> goint \<Rightarrow> bool" where
  "meetsDifficulty b i = (isHashValid (calculateHash (attempt b i)) (Difficulty b) = Inr True)"

definition mined :: "Block \<Rightarrow> goint \<Rightarrow> Block" where
  "mined b i = (attempt b i)\<lparr>Hash := calculateHash (attempt b i)\<rparr>"

text \<open>The first \<open>n\<close> characters of a string are all \<open>0\<close>.\<close>

definition leadingZeros :: "nat \<Rightarrow> string \<Rightarrow> bool" where
  "leadingZeros n h = (n \<le> length h \<and> list_all (\<lambda>c. c = CHR ''0'') (take n h))"

text \<open>Two blocks with the same payload: every field but the nonce and the hash.\<close>

definition samePayload :: "Block \<Rightarrow> Block \<Rightarrow> bool" where
  "samePayload b1 b2 =
     (Index b1 = Index b2 \<and> Timestamp b1 = Timestamp b2 \<and> PrevHash b1 = PrevHash b2 \<and>
      Transactions b1 = Transactions b2 \<and> Difficulty b1 = Difficulty b2)"



text \<open>
  A run: the server starts at \<open>startTime\<close>, and at \<open>postTime\<close> it receives the POST of
  \<open>{"Sender":"alice","Receiver":"bob","Amount":10}\<close>.
\<close>

definition startTime :: string where
  "startTime = ''2026-11-01 02:30:00.123456789 +0000 UTC m=+0.000012345''"

definition postTime :: string where
  "postTime = ''2026-11-01 02:31:07.511516324 +0000 UTC m=+67.388071880''"

definition aliceToBob :: Transaction where
  "aliceToBob = \<lparr>Sender = ''alice'', Receiver = ''bob'', Amount = 10\<rparr>"

definition firstCandidate :: Block where
  "firstCandidate = candidate (genesisBlock startTime) [aliceToBob] postTime"

section \<open>Properties of the library functions\<close>

lemma length_state_bytes: "length (state_bytes s) = 32"
  by (cases s rule: state_bytes.cases) (simp add: be_bytes32_def)

lemma length_EncodeToString: "length (EncodeToString bs) = 2 * length bs"
  by (induction bs) (simp_all add: EncodeToString_def)

lemma length_calculateHash: "length (calculateHash b) = 64"
  by (simp add: calculateHash_def sha256_def length_EncodeToString length_state_bytes)

section \<open>The difficulty test\<close>

lemma zeroPrefix_difficulty: "zeroPrefix 0 difficulty [] = ''0''"
proof -
  have "zeroPrefix 0 difficulty [] = zeroPrefix 1 difficulty ''0''"
    by (subst zeroPrefix.simps) (simp add: difficulty_def word_sless_alt)
  also have "\<dots> = ''0''"
    by (subst zeroPrefix.simps) (simp add: difficulty_def word_sless_alt)
  finally show ?thesis .
qed

lemma isHashValid_difficulty:
  assumes "1 \<le> length h"
  shows "isHashValid h difficulty = Inr (take 1 h = ''0'')"
proof -
  have "sint difficulty = 1"
    by (simp add: difficulty_def)
  with assms show ?thesis
    by (cases h) (simp_all add: isHashValid_def zeroPrefix_difficulty)
qed

lemma isHashValid_calculateHash:
  "isHashValid (calculateHash b) difficulty = Inr (take 1 (calculateHash b) = ''0'')"
  by (rule isHashValid_difficulty) (simp add: length_calculateHash)

lemma isHashValid_leadingZeros:
  "isHashValid (calculateHash b) difficulty = Inr True \<longleftrightarrow>
     leadingZeros (nat (sint difficulty)) (calculateHash b)"
proof -
  have "sint difficulty = 1"
    by (simp add: difficulty_def)
  moreover obtain c cs where "calculateHash b = c # cs"
    using length_calculateHash [of b] by (cases "calculateHash b") auto
  ultimately show ?thesis
    using isHashValid_calculateHash [of b]
    by (auto simp: leadingZeros_def)
qed

section \<open>The mining loop\<close>

lemma attempt_simps:
  "attempt (attempt b i) j = attempt b j"
  "Difficulty (attempt b i) = Difficulty b"
  "Index (attempt b i) = Index b"
  "PrevHash (attempt b i) = PrevHash b"
  "Nonce (attempt b i) = Itoa i"
  by (simp_all add: attempt_def)

lemma meetsDifficulty_attempt: "meetsDifficulty (attempt b i) j = meetsDifficulty b j"
  by (simp add: meetsDifficulty_def attempt_simps)

lemma mined_attempt: "mined (attempt b i) j = mined b j"
  by (simp add: mined_def attempt_simps)

lemma mine_unfold:
  assumes "Difficulty b = difficulty"
  shows "mine b i = (if meetsDifficulty b i then Some (Inr (mined b i))
                     else mine (attempt b i) (i + 1))"
  using assms isHashValid_calculateHash [of "attempt b i"]
  by (subst mine.simps)
     (simp add: meetsDifficulty_def mined_def attempt_def Let_def)

lemma mine_complete:
  assumes "Difficulty b = difficulty"
    and "meetsDifficulty b (i + of_nat k)"
    and "\<And>j. j < k \<Longrightarrow> \<not> meetsDifficulty b (i + of_nat j)"
  shows "mine b i = Some (Inr (mined b (i + of_nat k)))"
  using assms
proof (induction k arbitrary: b i)
  case 0
  then show ?case
    by (simp add: mine_unfold)
next
  case (Suc k)
  have first: "\<not> meetsDifficulty b i"
    using Suc.prems(3) [of 0] by simp
  have "mine (attempt b i) (i + 1) = Some (Inr (mined (attempt b i) (i + 1 + of_nat k)))"
  proof (rule Suc.IH)
    show "Difficulty (attempt b i) = difficulty"
      using Suc.prems(1) by (simp add: attempt_simps)
    show "meetsDifficulty (attempt b i) (i + 1 + of_nat k)"
      using Suc.prems(2) by (simp add: meetsDifficulty_attempt ac_simps)
    show "\<not> meetsDifficulty (attempt b i) (i + 1 + of_nat j)" if "j < k" for j
      using Suc.prems(3) [of "Suc j"] that
      by (simp add: meetsDifficulty_attempt ac_simps)
  qed
  then show ?case
    using first Suc.prems(1)
    by (simp add: mine_unfold mined_attempt ac_simps)
qed

lemma mine_sound:
  assumes "mine b i = Some r"
  shows "Difficulty b = difficulty \<longrightarrow>
         (\<exists>k. meetsDifficulty b (i + of_nat k) \<and>
              (\<forall>j<k. \<not> meetsDifficulty b (i + of_nat j)) \<and>
              r = Inr (mined b (i + of_nat k)))"
proof (rule mine.raw_induct [OF _ assms])
  fix mine' :: "Block \<Rightarrow> goint \<Rightarrow> (panic + Block) option" and b i r
  assume ih: "\<And>b i r. mine' b i = Some r \<Longrightarrow>
      Difficulty b = difficulty \<longrightarrow>
      (\<exists>k. meetsDifficulty b (i + of_nat k) \<and>
           (\<forall>j<k. \<not> meetsDifficulty b (i + of_nat j)) \<and>
           r = Inr (mined b (i + of_nat k)))"
  assume body: "(let b' = b\<lparr>Nonce := Itoa i\<rparr>; hash = calculateHash b'
      in case isHashValid hash (Difficulty b') of
           Inl p \<Rightarrow> Some (Inl p)
         | Inr ok \<Rightarrow> if ok then Some (Inr (b'\<lparr>Hash := hash\<rparr>)) else mine' b' (i + 1)) = Some r"
  show "Difficulty b = difficulty \<longrightarrow>
      (\<exists>k. meetsDifficulty b (i + of_nat k) \<and>
           (\<forall>j<k. \<not> meetsDifficulty b (i + of_nat j)) \<and>
           r = Inr (mined b (i + of_nat k)))"
  proof
    assume d: "Difficulty b = difficulty"
    show "\<exists>k. meetsDifficulty b (i + of_nat k) \<and>
              (\<forall>j<k. \<not> meetsDifficulty b (i + of_nat j)) \<and>
              r = Inr (mined b (i + of_nat k))"
    proof (cases "meetsDifficulty b i")
      case True
      with body d isHashValid_calculateHash [of "attempt b i"]
      have "r = Inr (mined b i)"
        by (simp add: meetsDifficulty_def mined_def attempt_def Let_def)
      with True show ?thesis
        by (intro exI [of _ 0]) simp
    next
      case False
      with body d isHashValid_calculateHash [of "attempt b i"]
      have "mine' (attempt b i) (i + 1) = Some r"
        by (simp add: meetsDifficulty_def attempt_def Let_def)
      from ih [OF this] d
      have "\<exists>k. meetsDifficulty b (i + 1 + of_nat k) \<and>
                (\<forall>j<k. \<not> meetsDifficulty b (i + 1 + of_nat j)) \<and>
                r = Inr (mined b (i + 1 + of_nat k))"
        by (simp add: attempt_simps meetsDifficulty_attempt mined_attempt)
      then obtain k where
        k: "meetsDifficulty b (i + 1 + of_nat k)"
           "\<forall>j<k. \<not> meetsDifficulty b (i + 1 + of_nat j)"
           "r = Inr (mined b (i + 1 + of_nat k))"
        by blast
      have "\<not> meetsDifficulty b (i + of_nat j)" if "j < Suc k" for j
      proof (cases j)
        case 0
        with False show ?thesis by simp
      next
        case (Suc j')
        with that k(2) show ?thesis
          by (simp add: ac_simps)
      qed
      with k(1,3) show ?thesis
        by (intro exI [of _ "Suc k"]) (simp add: ac_simps)
    qed
  qed
qed

section \<open>The run from \<open>startTime\<close>, evaluated\<close>

text \<open>The digest of the model on the one-block message of FIPS 180-4.\<close>

lemma sha256_abc:
  "EncodeToString (sha256 (bytes_of ''abc'')) =
     ''ba7816bf8f01cfea414140de5dae2223b00361a396177a9cb410ff61f20015ad''"
  by code_simp

lemma Itoa_0: "Itoa 0 = ''0''"
  by (simp add: Itoa_def digits.simps)

lemma Itoa_1: "Itoa 1 = ''1''"
  by (simp add: Itoa_def digits.simps)

lemma Itoa_10: "Itoa 10 = ''10''"
  by (simp add: Itoa_def digits.simps)

lemma hashRecord_zeroBlock: "hashRecord zeroBlock = ''0[]''"
  by (simp add: hashRecord_def zeroBlock_def Itoa_0 Sprint_def)

lemma sha256_zeroBlock:
  "EncodeToString (sha256 (bytes_of ''0[]'')) =
     ''431bf5c814e384ce9fa40f655f4b94f7f6a8c8504ea4844c30c484ebf03121f1''"
  by code_simp

lemma calculateHash_zeroBlock:
  "calculateHash zeroBlock = ''431bf5c814e384ce9fa40f655f4b94f7f6a8c8504ea4844c30c484ebf03121f1''"
  by (simp only: calculateHash_def hashRecord_zeroBlock sha256_zeroBlock)

lemma hashRecord_genesis:
  "hashRecord (genesisBlock startTime) =
     ''02026-11-01 02:30:00.123456789 +0000 UTC m=+0.000012345[]''"
  by (simp add: hashRecord_def genesisBlock_def Itoa_0 Sprint_def startTime_def)

lemma sha256_genesis:
  "EncodeToString (sha256 (bytes_of ''02026-11-01 02:30:00.123456789 +0000 UTC m=+0.000012345[]'')) =
     ''2df0af9c03b1b6970accb26c8b1fbcedc5f2d4d01d3a09d98b56266aecb74715''"
  by code_simp

lemma calculateHash_genesis:
  "calculateHash (genesisBlock startTime) =
     ''2df0af9c03b1b6970accb26c8b1fbcedc5f2d4d01d3a09d98b56266aecb74715''"
  by (simp only: calculateHash_def hashRecord_genesis sha256_genesis)

lemma hashRecord_attempt_0:
  "hashRecord (attempt firstCandidate 0) =
     ''12026-11-01 02:31:07.511516324 +0000 UTC m=+67.388071880431bf5c814e384ce9fa40f655f4b94f7f6a8c8504ea4844c30c484ebf03121f1[{alice bob 10}]0''"
  by (simp add: hashRecord_def attempt_def firstCandidate_def candidate_def genesisBlock_def
      calculateHash_zeroBlock Itoa_0 Itoa_1 Itoa_10 Sprint_def sprintTransaction_def
      aliceToBob_def postTime_def)

lemma hashRecord_attempt_1:
  "hashRecord (attempt firstCandidate 1) =
     ''12026-11-01 02:31:07.511516324 +0000 UTC m=+67.388071880431bf5c814e384ce9fa40f655f4b94f7f6a8c8504ea4844c30c484ebf03121f1[{alice bob 10}]1''"
  by (simp add: hashRecord_def attempt_def firstCandidate_def candidate_def genesisBlock_def
      calculateHash_zeroBlock Itoa_0 Itoa_1 Itoa_10 Sprint_def sprintTransaction_def
      aliceToBob_def postTime_def)

lemma sha256_attempt_0:
  "EncodeToString (sha256 (bytes_of ''12026-11-01 02:31:07.511516324 +0000 UTC m=+67.388071880431bf5c814e384ce9fa40f655f4b94f7f6a8c8504ea4844c30c484ebf03121f1[{alice bob 10}]0'')) =
     ''39b8335aaa92a8d1cde7388c45ef1baf84672d4e7d605430198037e883ec51ee''"
  by code_simp

lemma sha256_attempt_1:
  "EncodeToString (sha256 (bytes_of ''12026-11-01 02:31:07.511516324 +0000 UTC m=+67.388071880431bf5c814e384ce9fa40f655f4b94f7f6a8c8504ea4844c30c484ebf03121f1[{alice bob 10}]1'')) =
     ''0032750ecb39329db618a630f544ff9efbd4f25977564bf3639a05919323e24a''"
  by code_simp

lemma calculateHash_attempt_0:
  "calculateHash (attempt firstCandidate 0) =
     ''39b8335aaa92a8d1cde7388c45ef1baf84672d4e7d605430198037e883ec51ee''"
  by (simp only: calculateHash_def hashRecord_attempt_0 sha256_attempt_0)

lemma calculateHash_attempt_1:
  "calculateHash (attempt firstCandidate 1) =
     ''0032750ecb39329db618a630f544ff9efbd4f25977564bf3639a05919323e24a''"
  by (simp only: calculateHash_def hashRecord_attempt_1 sha256_attempt_1)

lemma Difficulty_firstCandidate: "Difficulty firstCandidate = difficulty"
  by (simp add: firstCandidate_def candidate_def)

lemma not_meetsDifficulty_0: "\<not> meetsDifficulty firstCandidate 0"
  using isHashValid_calculateHash [of "attempt firstCandidate 0"]
  by (simp add: meetsDifficulty_def Difficulty_firstCandidate calculateHash_attempt_0)

lemma meetsDifficulty_1: "meetsDifficulty firstCandidate 1"
  using isHashValid_calculateHash [of "attempt firstCandidate 1"]
  by (simp add: meetsDifficulty_def Difficulty_firstCandidate calculateHash_attempt_1)

lemma mined_firstCandidate_1:
  "mined firstCandidate 1 =
     \<lparr>Index = 1, Timestamp = postTime, Transactions = [aliceToBob],
      PrevHash = ''431bf5c814e384ce9fa40f655f4b94f7f6a8c8504ea4844c30c484ebf03121f1'',
      Hash = ''0032750ecb39329db618a630f544ff9efbd4f25977564bf3639a05919323e24a'',
      Nonce = ''1'', Difficulty = 1\<rparr>"
  by (simp add: mined_def calculateHash_attempt_1)
     (simp add: attempt_def firstCandidate_def candidate_def genesisBlock_def
        calculateHash_zeroBlock Itoa_1 difficulty_def)

lemma generateBlock_run:
  "generateBlock (genesisBlock startTime) [aliceToBob] postTime = Some (Inr (mined firstCandidate 1))"
proof -
  have "mine firstCandidate 0 = Some (Inr (mined firstCandidate (0 + of_nat 1)))"
  proof (rule mine_complete)
    show "Difficulty firstCandidate = difficulty"
      by (rule Difficulty_firstCandidate)
    show "meetsDifficulty firstCandidate (0 + of_nat 1)"
      using meetsDifficulty_1 by simp
    show "\<not> meetsDifficulty firstCandidate (0 + of_nat j)" if "j < 1" for j
      using that not_meetsDifficulty_0 by simp
  qed
  then show ?thesis
    by (simp add: generateBlock_def firstCandidate_def)
qed

section \<open>Blocks that the loop returns\<close>

lemma calculateHash_mined: "calculateHash (mined b i) = calculateHash (attempt b i)"
  by (simp add: calculateHash_def hashRecord_def mined_def)

lemma mined_simps:
  "Index (mined b i) = Index b"
  "Timestamp (mined b i) = Timestamp b"
  "Transactions (mined b i) = Transactions b"
  "PrevHash (mined b i) = PrevHash b"
  "Hash (mined b i) = calculateHash (attempt b i)"
  "Nonce (mined b i) = Itoa i"
  "Difficulty (mined b i) = Difficulty b"
  by (simp_all add: mined_def attempt_def)

lemma candidate_simps:
  "Index (candidate p txs now) = Index p + 1"
  "Timestamp (candidate p txs now) = now"
  "Transactions (candidate p txs now) = txs"
  "PrevHash (candidate p txs now) = Hash p"
  "Difficulty (candidate p txs now) = difficulty"
  by (simp_all add: candidate_def)

lemma isBlockValid_iff:
  "isBlockValid c p \<longleftrightarrow>
     Index c = Index p + 1 \<and> PrevHash c = Hash p \<and> calculateHash c = Hash c"
  by (auto simp: isBlockValid_def)

lemma isBlockValid_mined: "isBlockValid (mined (candidate p txs now) i) p"
  by (simp add: isBlockValid_iff mined_simps candidate_simps calculateHash_mined)

lemma meetsDifficulty_leadingZeros:
  assumes "Difficulty b = difficulty"
  shows "meetsDifficulty b i \<longleftrightarrow> leadingZeros (nat (sint difficulty)) (Hash (mined b i))"
  using assms isHashValid_leadingZeros [of "attempt b i"]
  by (simp add: meetsDifficulty_def mined_simps)

lemma generateBlock_Some:
  assumes "generateBlock p txs now = Some r"
  shows "\<exists>k. meetsDifficulty (candidate p txs now) (of_nat k) \<and>
             (\<forall>j<k. \<not> meetsDifficulty (candidate p txs now) (of_nat j)) \<and>
             r = Inr (mined (candidate p txs now) (of_nat k))"
  using mine_sound [of "candidate p txs now" 0 r] assms
  by (simp add: generateBlock_def candidate_simps)

lemma generateBlock_first:
  assumes "meetsDifficulty (candidate p txs now) (of_nat k)"
    and "\<And>j. j < k \<Longrightarrow> \<not> meetsDifficulty (candidate p txs now) (of_nat j)"
  shows "generateBlock p txs now = Some (Inr (mined (candidate p txs now) (of_nat k)))"
  using mine_complete [of "candidate p txs now" 0 k] assms
  by (simp add: generateBlock_def candidate_simps)


lemma Itoa_of_nat:
  assumes "k < 2 ^ 63"
  shows "Itoa (of_nat k) = digits k"
proof -
  have "int k < 2 ^ 63"
    using assms by (metis of_nat_less_iff of_nat_numeral of_nat_power)
  then have "signed_take_bit 63 (int k) = int k"
    by (intro signed_take_bit_int_eq_self) auto
  then have "sint (of_nat k :: goint) = int k"
    by (simp add: signed_of_nat)
  then show ?thesis
    by (simp add: Itoa_def)
qed

section \<open>The handlers\<close>

lemma handleWriteTransaction_valid:
  assumes "isTransactionValid t" and "chain \<noteq> []"
  shows "handleWriteTransaction now (Some t) chain =
     (case generateBlock (last chain) [t] now of
        None \<Rightarrow> None
      | Some (Inl p) \<Rightarrow> Some (Inl p)
      | Some (Inr newBlock) \<Rightarrow>
          if isBlockValid newBlock (last chain)
          then Some (Inr (Written (''Transaction added to Block '' @ Itoa (Index newBlock) @ [CHR 0x0A]),
                          chain @ [newBlock]))
          else Some (Inr (HttpError 500 ''Invalid block'', chain)))"
  using assms by (simp add: handleWriteTransaction_def)

lemma handleWriteTransaction_mined:
  assumes "isTransactionValid t" and "chain \<noteq> []"
    and "generateBlock (last chain) [t] now = Some (Inr b)"
  shows "handleWriteTransaction now (Some t) chain =
     Some (Inr (Written (''Transaction added to Block '' @ Itoa (Index b) @ [CHR 0x0A]), chain @ [b]))"
proof -
  obtain k where "b = mined (candidate (last chain) [t] now) (of_nat k)"
    using generateBlock_Some [OF assms(3)] by auto
  then have "isBlockValid b (last chain)"
    by (simp add: isBlockValid_mined)
  with assms show ?thesis
    by (simp add: handleWriteTransaction_valid)
qed

lemma handleWriteTransaction_cases:
  assumes "handleWriteTransaction now body chain = Some (Inr (resp, chain'))"
  shows "chain' = chain \<or>
     (chain \<noteq> [] \<and> (\<exists>t k. chain' = chain @ [mined (candidate (last chain) [t] now) (of_nat k)] \<and>
        meetsDifficulty (candidate (last chain) [t] now) (of_nat k)))"
proof (cases body)
  case None
  with assms show ?thesis
    by (simp add: handleWriteTransaction_def)
next
  case (Some t)
  show ?thesis
  proof (cases "isTransactionValid t \<and> chain \<noteq> []")
    case False
    with assms Some show ?thesis
      by (auto simp: handleWriteTransaction_def split: if_splits)
  next
    case True
    then obtain r where r: "generateBlock (last chain) [t] now = Some r"
      using assms Some by (cases "generateBlock (last chain) [t] now")
        (simp_all add: handleWriteTransaction_valid)
    from generateBlock_Some [OF r] obtain k where
      k: "meetsDifficulty (candidate (last chain) [t] now) (of_nat k)"
         "r = Inr (mined (candidate (last chain) [t] now) (of_nat k))"
      by blast
    with assms Some True r have "chain' = chain @ [mined (candidate (last chain) [t] now) (of_nat k)]"
      by (simp add: handleWriteTransaction_valid isBlockValid_mined)
    with k(1) True show ?thesis
      by blast
  qed
qed

lemma handleAPIRequests_cases:
  assumes "handleAPIRequests now r chain = Some (Inr (resp, chain'))"
  shows "chain' = chain \<or>
     (chain \<noteq> [] \<and> (\<exists>t k. chain' = chain @ [mined (candidate (last chain) [t] now) (of_nat k)] \<and>
        meetsDifficulty (candidate (last chain) [t] now) (of_nat k)))"
proof (cases "Method r = ''POST''")
  case True
  with assms have "handleWriteTransaction now (Body r) chain = Some (Inr (resp, chain'))"
    by (simp add: handleAPIRequests_def)
  then show ?thesis
    by (rule handleWriteTransaction_cases)
next
  case False
  with assms show ?thesis
    by (auto simp: handleAPIRequests_def handleGetBlockchain_def split: if_splits)
qed

section \<open>The invariant of the ledger\<close>







text \<open>Every block after the first one has been mined.\<close>

lemma reachable_tail_mined:
  assumes "reachable chain" and "b \<in> set (tl chain)"
  shows "calculateHash b = Hash b \<and> Difficulty b = difficulty \<and>
         leadingZeros (nat (sint difficulty)) (Hash b)"
  using assms
proof (induction arbitrary: b rule: reachable.induct)
  case (start now)
  then show ?case
    by (simp add: initializeBlockchain_def)
next
  case (request chain now r resp chain')
  from handleAPIRequests_cases [OF request.hyps(2)]
  show ?case
  proof
    assume "chain' = chain"
    with request show ?thesis by simp
  next
    assume "chain \<noteq> [] \<and> (\<exists>t k. chain' = chain @ [mined (candidate (last chain) [t] now) (of_nat k)] \<and>
        meetsDifficulty (candidate (last chain) [t] now) (of_nat k))"
    then obtain t k where ne: "chain \<noteq> []"
      and c': "chain' = chain @ [mined (candidate (last chain) [t] now) (of_nat k)]"
      and m: "meetsDifficulty (candidate (last chain) [t] now) (of_nat k)"
      by blast
    from ne c' request.prems
    have "b \<in> set (tl chain) \<or> b = mined (candidate (last chain) [t] now) (of_nat k)"
      by auto
    then show ?thesis
    proof
      assume "b \<in> set (tl chain)"
      then show ?thesis by (rule request.IH)
    next
      assume b: "b = mined (candidate (last chain) [t] now) (of_nat k)"
      have "leadingZeros (nat (sint difficulty)) (Hash b)"
        using m meetsDifficulty_leadingZeros [of "candidate (last chain) [t] now" "of_nat k"]
        by (simp add: b candidate_simps)
      then show ?thesis
        by (simp add: b mined_simps candidate_simps calculateHash_mined)
    qed
  qed
qed

section \<open>The search depends on the payload only\<close>

lemma samePayload_attempt:
  assumes "samePayload b1 b2"
  shows "samePayload (attempt b1 i) (attempt b2 i)"
    and "calculateHash (attempt b1 i) = calculateHash (attempt b2 i)"
    and "Difficulty (attempt b1 i) = Difficulty (attempt b2 i)"
    and "(attempt b1 i)\<lparr>Hash := h\<rparr> = (attempt b2 i)\<lparr>Hash := h\<rparr>"
  using assms
  by (simp_all add: samePayload_def attempt_def calculateHash_def hashRecord_def)

lemma mine_samePayload_Some:
  assumes "mine b1 i = Some r"
  shows "\<forall>b2. samePayload b1 b2 \<longrightarrow> mine b2 i = Some r"
proof (rule mine.raw_induct [OF _ assms])
  fix mine' :: "Block \<Rightarrow> goint \<Rightarrow> (panic + Block) option" and b1 i r
  assume ih: "\<And>b i r. mine' b i = Some r \<Longrightarrow> \<forall>b2. samePayload b b2 \<longrightarrow> mine b2 i = Some r"
  assume body: "(let b' = b1\<lparr>Nonce := Itoa i\<rparr>; hash = calculateHash b'
      in case isHashValid hash (Difficulty b') of
           Inl p \<Rightarrow> Some (Inl p)
         | Inr ok \<Rightarrow> if ok then Some (Inr (b'\<lparr>Hash := hash\<rparr>)) else mine' b' (i + 1)) = Some r"
  show "\<forall>b2. samePayload b1 b2 \<longrightarrow> mine b2 i = Some r"
  proof (intro allI impI)
    fix b2
    assume same: "samePayload b1 b2"
    note eqs = samePayload_attempt [OF same, where i = i]
    show "mine b2 i = Some r"
    proof (cases "isHashValid (calculateHash (attempt b1 i)) (Difficulty (attempt b1 i))")
      case (Inl p)
      with body eqs show ?thesis
        by (subst mine.simps) (simp add: attempt_def Let_def)
    next
      case (Inr ok)
      show ?thesis
      proof (cases ok)
        case True
        with Inr body eqs show ?thesis
          by (subst mine.simps) (simp add: attempt_def Let_def)
      next
        case False
        with Inr body have "mine' (attempt b1 i) (i + 1) = Some r"
          by (simp add: attempt_def Let_def)
        from ih [OF this] eqs(1) have "mine (attempt b2 i) (i + 1) = Some r"
          by blast
        with False Inr eqs show ?thesis
          by (subst mine.simps) (simp add: attempt_def Let_def)
      qed
    qed
  qed
qed

lemma samePayload_sym: "samePayload b1 b2 \<Longrightarrow> samePayload b2 b1"
  by (simp add: samePayload_def)

lemma mine_samePayload:
  assumes "samePayload b1 b2"
  shows "mine b1 i = mine b2 i"
proof (cases "mine b1 i")
  case (Some r)
  with mine_samePayload_Some [OF Some] assms show ?thesis
    by simp
next
  case None
  show ?thesis
  proof (cases "mine b2 i")
    case None
    with \<open>mine b1 i = None\<close> show ?thesis by simp
  next
    case (Some r)
    from mine_samePayload_Some [OF Some] samePayload_sym [OF assms]
    have "mine b1 i = Some r" by blast
    with None show ?thesis by simp
  qed
qed

section \<open>The run from \<open>startTime\<close>, continued\<close>

lemma sint_difficulty: "sint difficulty = 1"
  by (simp add: difficulty_def)

lemma isTransactionValid_aliceToBob: "isTransactionValid aliceToBob"
  by (simp add: isTransactionValid_def aliceToBob_def word_sle_eq)

lemma last_start: "last (initializeBlockchain startTime []) = genesisBlock startTime"
  by (simp add: initializeBlockchain_def)

lemma handleWriteTransaction_run:
  "handleWriteTransaction postTime (Some aliceToBob) (initializeBlockchain startTime []) =
     Some (Inr (Written (''Transaction added to Block 1'' @ [CHR 0x0A]),
                [genesisBlock startTime, mined firstCandidate 1]))"
proof -
  have "generateBlock (last (initializeBlockchain startTime [])) [aliceToBob] postTime =
      Some (Inr (mined firstCandidate 1))"
    by (simp only: last_start generateBlock_run)
  from handleWriteTransaction_mined [OF isTransactionValid_aliceToBob _ this]
  show ?thesis
    by (simp add: initializeBlockchain_def mined_simps firstCandidate_def candidate_simps
        genesisBlock_def Itoa_1)
qed

lemma reachable_run: "reachable [genesisBlock startTime, mined firstCandidate 1]"
proof (rule reachable.request)
  show "reachable (initializeBlockchain startTime [])"
    by (rule reachable.start)
  show "handleAPIRequests postTime \<lparr>Method = ''POST'', Body = Some aliceToBob\<rparr>
        (initializeBlockchain startTime []) =
      Some (Inr (Written (''Transaction added to Block 1'' @ [CHR 0x0A]),
                 [genesisBlock startTime, mined firstCandidate 1]))"
    by (simp add: handleAPIRequests_def handleWriteTransaction_run)
qed

lemma not_leadingZeros_genesis:
  "\<not> leadingZeros (nat (sint difficulty)) (Hash (genesisBlock startTime))"
  by (simp add: genesisBlock_def calculateHash_zeroBlock leadingZeros_def sint_difficulty)

lemma generateBlock_no_panic: "generateBlock p txs now \<noteq> Some (Inl e)"
  using generateBlock_Some [of p txs now "Inl e"] by auto

lemma handleWriteTransaction_no_500:
  "handleWriteTransaction now body chain \<noteq> Some (Inr (HttpError 500 ''Invalid block'', chain'))"
proof (cases body)
  case None
  then show ?thesis
    by (simp add: handleWriteTransaction_def)
next
  case (Some t)
  show ?thesis
  proof (cases "isTransactionValid t \<and> chain \<noteq> []")
    case False
    with Some show ?thesis
      by (auto simp: handleWriteTransaction_def)
  next
    case True
    show ?thesis
    proof (cases "generateBlock (last chain) [t] now")
      case None
      with True Some show ?thesis
        by (simp add: handleWriteTransaction_valid)
    next
      case (Some r)
      from generateBlock_Some [OF Some] obtain k where
        "r = Inr (mined (candidate (last chain) [t] now) (of_nat k))"
        by blast
      with True Some \<open>body = Some t\<close> show ?thesis
        by (simp add: handleWriteTransaction_valid isBlockValid_mined)
    qed
  qed
qed

section \<open>The claims\<close>

text \<open>
  C1. \<open>isBlockValid\<close> holds of a candidate and its predecessor exactly when the
  candidate's index is the predecessor's plus one, its \<open>PrevHash\<close> is the predecessor's
  hash, and the digest recomputed from it is its stored hash. The difficulty is not
  looked at: a candidate with these three properties whose hash does not start with the
  required zeros is valid all the same.
\<close>

theorem isBlockValid_three_conditions:
  "(isBlockValid c p \<longleftrightarrow>
      Index c = Index p + 1 \<and> PrevHash c = Hash p \<and> calculateHash c = Hash c) \<and>
   (Index c = Index p + 1 \<and> PrevHash c = Hash p \<and> calculateHash c = Hash c \<and>
      \<not> leadingZeros (nat (sint difficulty)) (Hash c) \<longrightarrow> isBlockValid c p)"
  by (auto simp: isBlockValid_def)

theorem isBlockValid_three_conditions_witness:
  "Index (mined firstCandidate 0) = Index (genesisBlock startTime) + 1 \<and>
   PrevHash (mined firstCandidate 0) = Hash (genesisBlock startTime) \<and>
   calculateHash (mined firstCandidate 0) = Hash (mined firstCandidate 0) \<and>
   Hash (mined firstCandidate 0) = ''39b8335aaa92a8d1cde7388c45ef1baf84672d4e7d605430198037e883ec51ee'' \<and>
   \<not> leadingZeros (nat (sint difficulty)) (Hash (mined firstCandidate 0)) \<and>
   isBlockValid (mined firstCandidate 0) (genesisBlock startTime)"
proof -
  have i: "Index (mined firstCandidate 0) = Index (genesisBlock startTime) + 1"
    by (simp add: mined_simps firstCandidate_def candidate_simps)
  have p: "PrevHash (mined firstCandidate 0) = Hash (genesisBlock startTime)"
    by (simp add: mined_simps firstCandidate_def candidate_simps)
  have h: "calculateHash (mined firstCandidate 0) = Hash (mined firstCandidate 0)"
    by (simp add: mined_simps calculateHash_mined)
  have v: "Hash (mined firstCandidate 0) =
      ''39b8335aaa92a8d1cde7388c45ef1baf84672d4e7d605430198037e883ec51ee''"
    by (simp add: mined_simps calculateHash_attempt_0)
  have z: "\<not> leadingZeros (nat (sint difficulty)) (Hash (mined firstCandidate 0))"
    by (simp add: v leadingZeros_def sint_difficulty)
  from isBlockValid_three_conditions [of "mined firstCandidate 0" "genesisBlock startTime"] i p h z
  have "isBlockValid (mined firstCandidate 0) (genesisBlock startTime)"
    by blast
  with i p h v z show ?thesis
    by blast
qed

text \<open>
  C2. The claim that every block of a chain built by the server has a stored hash equal
  to its recomputed digest and starting with \<open>difficulty\<close> zeros fails at the genesis
  block: its hash is not mined and is not the digest of the block as stored.
\<close>

theorem every_block_mined_counterexample:
  "reachable (initializeBlockchain startTime []) \<and>
   genesisBlock startTime \<in> set (initializeBlockchain startTime []) \<and>
   Hash (genesisBlock startTime) = ''431bf5c814e384ce9fa40f655f4b94f7f6a8c8504ea4844c30c484ebf03121f1'' \<and>
   calculateHash (genesisBlock startTime) = ''2df0af9c03b1b6970accb26c8b1fbcedc5f2d4d01d3a09d98b56266aecb74715'' \<and>
   calculateHash (genesisBlock startTime) \<noteq> Hash (genesisBlock startTime) \<and>
   \<not> leadingZeros (nat (sint difficulty)) (Hash (genesisBlock startTime))"
proof -
  have "Hash (genesisBlock startTime) =
      ''431bf5c814e384ce9fa40f655f4b94f7f6a8c8504ea4844c30c484ebf03121f1''"
    by (simp add: genesisBlock_def calculateHash_zeroBlock)
  moreover have "genesisBlock startTime \<in> set (initializeBlockchain startTime [])"
    by (simp add: initializeBlockchain_def)
  ultimately show ?thesis
    using reachable.start [of startTime] not_leadingZeros_genesis
    by (simp add: calculateHash_genesis)
qed

text \<open>
  C2, amended. Every block after the first one of a chain built by the server has a
  stored hash equal to its recomputed digest, and the first \<open>difficulty\<close> characters of
  that hash are all \<open>0\<close>.
\<close>

theorem appended_blocks_mined:
  assumes "reachable chain" and "b \<in> set (tl chain)"
  shows "calculateHash b = Hash b \<and> leadingZeros (nat (sint difficulty)) (Hash b)"
  using reachable_tail_mined [OF assms] by simp

theorem appended_blocks_mined_witness:
  "reachable [genesisBlock startTime, mined firstCandidate 1] \<and>
   mined firstCandidate 1 \<in> set (tl [genesisBlock startTime, mined firstCandidate 1]) \<and>
   calculateHash (mined firstCandidate 1) = Hash (mined firstCandidate 1) \<and>
   leadingZeros (nat (sint difficulty)) (Hash (mined firstCandidate 1))"
proof -
  have m: "mined firstCandidate 1 \<in> set (tl [genesisBlock startTime, mined firstCandidate 1])"
    by simp
  from appended_blocks_mined [OF reachable_run m] reachable_run m show ?thesis
    by blast
qed

text \<open>
  C3. The hash stored in the genesis block is the digest of the zero-valued block, whose
  hashed record is \<open>0[]\<close>: \<open>calculateHash\<close> runs before the fields of the genesis block
  are set. The record hashed for the block as stored differs from it whenever the
  timestamp is not empty, and for the start at \<open>startTime\<close> the digest of the stored
  block is not the stored hash.
\<close>

theorem genesis_hash_of_zero_value:
  "initializeBlockchain now [] = [genesisBlock now] \<and>
   Hash (genesisBlock now) = calculateHash zeroBlock \<and>
   Index zeroBlock = 0 \<and> Timestamp zeroBlock = [] \<and> PrevHash zeroBlock = [] \<and>
   Transactions zeroBlock = [] \<and> Nonce zeroBlock = [] \<and>
   hashRecord zeroBlock = ''0[]'' \<and>
   (now \<noteq> [] \<longrightarrow> hashRecord (genesisBlock now) \<noteq> hashRecord zeroBlock) \<and>
   calculateHash (genesisBlock startTime) \<noteq> Hash (genesisBlock startTime)"
proof -
  have "hashRecord (genesisBlock now) = ''0'' @ now @ ''[]''"
    by (simp add: hashRecord_def genesisBlock_def Itoa_0 Sprint_def)
  then have "now \<noteq> [] \<longrightarrow> hashRecord (genesisBlock now) \<noteq> hashRecord zeroBlock"
    by (simp add: hashRecord_zeroBlock)
  moreover have "calculateHash (genesisBlock startTime) \<noteq> Hash (genesisBlock startTime)"
    by (simp add: calculateHash_genesis) (simp add: genesisBlock_def calculateHash_zeroBlock)
  ultimately show ?thesis
    by (simp add: initializeBlockchain_def hashRecord_zeroBlock)
       (simp add: genesisBlock_def zeroBlock_def)
qed

theorem genesis_hash_of_zero_value_witness:
  "startTime \<noteq> [] \<and>
   Hash (genesisBlock startTime) = ''431bf5c814e384ce9fa40f655f4b94f7f6a8c8504ea4844c30c484ebf03121f1'' \<and>
   hashRecord (genesisBlock startTime) \<noteq> hashRecord zeroBlock"
proof -
  have s: "startTime \<noteq> []"
    by (simp add: startTime_def)
  from genesis_hash_of_zero_value [of startTime] s
  have "Hash (genesisBlock startTime) = calculateHash zeroBlock"
    and "hashRecord (genesisBlock startTime) \<noteq> hashRecord zeroBlock"
    by blast+
  with s show ?thesis
    by (simp add: calculateHash_zeroBlock)
qed



text \<open>
  C5. \<open>isTransactionValid\<close> holds of a transaction exactly when its sender is not empty,
  its receiver is not empty, and its amount is greater than 0.
\<close>

theorem isTransactionValid_fields:
  "isTransactionValid t \<longleftrightarrow> Sender t \<noteq> [] \<and> Receiver t \<noteq> [] \<and> 0 < sint (Amount t)"
  by (auto simp: isTransactionValid_def word_sle_eq)

theorem isTransactionValid_fields_witness:
  "isTransactionValid \<lparr>Sender = ''alice'', Receiver = ''bob'', Amount = 10\<rparr> \<and>
   \<not> isTransactionValid \<lparr>Sender = ''alice'', Receiver = ''bob'', Amount = 0\<rparr> \<and>
   \<not> isTransactionValid \<lparr>Sender = ''alice'', Receiver = ''bob'', Amount = - 10\<rparr> \<and>
   \<not> isTransactionValid \<lparr>Sender = [], Receiver = ''bob'', Amount = 10\<rparr> \<and>
   \<not> isTransactionValid \<lparr>Sender = ''alice'', Receiver = [], Amount = 10\<rparr>"
  by (simp add: isTransactionValid_fields)

text \<open>
  C6. The search of \<open>generateBlock\<close> tries the counters 0, 1, 2, ... in this order, each
  rendered in decimal as the nonce, and returns at the first one whose digest starts with
  \<open>difficulty\<close> zeros: the block returned has that nonce and that digest as its hash, and
  every counter before it fails the test. The search returns exactly when there is such a
  counter.
\<close>

theorem generateBlock_first_valid_nonce:
  "(generateBlock p txs now = Some r \<longleftrightarrow>
      (\<exists>k. meetsDifficulty (candidate p txs now) (of_nat k) \<and>
           (\<forall>j<k. \<not> meetsDifficulty (candidate p txs now) (of_nat j)) \<and>
           r = Inr (mined (candidate p txs now) (of_nat k)))) \<and>
   (\<forall>i. Nonce (mined (candidate p txs now) i) = Itoa i \<and>
        Hash (mined (candidate p txs now) i) = calculateHash (mined (candidate p txs now) i) \<and>
        (meetsDifficulty (candidate p txs now) i \<longleftrightarrow>
           leadingZeros (nat (sint difficulty)) (Hash (mined (candidate p txs now) i)))) \<and>
   (\<forall>k<2 ^ 63. Itoa (of_nat k) = digits k)"
proof (intro conjI allI impI iffI)
  assume "generateBlock p txs now = Some r"
  then show "\<exists>k. meetsDifficulty (candidate p txs now) (of_nat k) \<and>
           (\<forall>j<k. \<not> meetsDifficulty (candidate p txs now) (of_nat j)) \<and>
           r = Inr (mined (candidate p txs now) (of_nat k))"
    by (rule generateBlock_Some)
next
  assume "\<exists>k. meetsDifficulty (candidate p txs now) (of_nat k) \<and>
           (\<forall>j<k. \<not> meetsDifficulty (candidate p txs now) (of_nat j)) \<and>
           r = Inr (mined (candidate p txs now) (of_nat k))"
  then show "generateBlock p txs now = Some r"
    using generateBlock_first [of p txs now] by blast
next
  fix i
  show "Nonce (mined (candidate p txs now) i) = Itoa i"
    by (simp add: mined_simps)
  show "Hash (mined (candidate p txs now) i) = calculateHash (mined (candidate p txs now) i)"
    by (simp add: mined_simps calculateHash_mined)
  show "leadingZeros (nat (sint difficulty)) (Hash (mined (candidate p txs now) i))"
    if "meetsDifficulty (candidate p txs now) i"
    using that meetsDifficulty_leadingZeros [of "candidate p txs now" i]
    by (simp add: candidate_simps)
  show "meetsDifficulty (candidate p txs now) i"
    if "leadingZeros (nat (sint difficulty)) (Hash (mined (candidate p txs now) i))"
    using that meetsDifficulty_leadingZeros [of "candidate p txs now" i]
    by (simp add: candidate_simps)
next
  fix k :: nat
  assume "k < 2 ^ 63"
  then show "Itoa (of_nat k) = digits k"
    by (rule Itoa_of_nat)
qed

theorem generateBlock_first_valid_nonce_witness:
  "\<not> meetsDifficulty (candidate (genesisBlock startTime) [aliceToBob] postTime) 0 \<and>
   meetsDifficulty (candidate (genesisBlock startTime) [aliceToBob] postTime) 1 \<and>
   generateBlock (genesisBlock startTime) [aliceToBob] postTime =
     Some (Inr \<lparr>Index = 1, Timestamp = postTime, Transactions = [aliceToBob],
       PrevHash = ''431bf5c814e384ce9fa40f655f4b94f7f6a8c8504ea4844c30c484ebf03121f1'',
       Hash = ''0032750ecb39329db618a630f544ff9efbd4f25977564bf3639a05919323e24a'',
       Nonce = ''1'', Difficulty = 1\<rparr>)"
proof -
  have n: "\<not> meetsDifficulty (candidate (genesisBlock startTime) [aliceToBob] postTime) (of_nat 0)"
    using not_meetsDifficulty_0 by (simp add: firstCandidate_def)
  have y: "meetsDifficulty (candidate (genesisBlock startTime) [aliceToBob] postTime) (of_nat 1)"
    using meetsDifficulty_1 by (simp add: firstCandidate_def)
  have "\<exists>k. meetsDifficulty (candidate (genesisBlock startTime) [aliceToBob] postTime) (of_nat k) \<and>
      (\<forall>j<k. \<not> meetsDifficulty (candidate (genesisBlock startTime) [aliceToBob] postTime) (of_nat j)) \<and>
      Inr (mined firstCandidate 1) =
        Inr (mined (candidate (genesisBlock startTime) [aliceToBob] postTime) (of_nat k))"
    using n y by (intro exI [of _ 1]) (simp add: firstCandidate_def)
  with generateBlock_first_valid_nonce
    [of "genesisBlock startTime" "[aliceToBob]" postTime "Inr (mined firstCandidate 1)"]
  have "generateBlock (genesisBlock startTime) [aliceToBob] postTime =
      Some (Inr (mined firstCandidate 1))"
    by blast
  with n y show ?thesis
    by (simp add: mined_firstCandidate_1)
qed

text \<open>
  C7. A block that \<open>generateBlock\<close> returns for a predecessor passes \<open>isBlockValid\<close>
  against that predecessor: its index is the predecessor's plus one, its \<open>PrevHash\<close> is
  the predecessor's hash, and its stored hash is the digest of its final fields. The
  search does not panic, and a request served alone is never answered
  \<open>500 Invalid block\<close>.
\<close>

theorem generateBlock_passes_isBlockValid:
  "(generateBlock p txs now = Some (Inr b) \<longrightarrow>
      isBlockValid b p \<and> Index b = Index p + 1 \<and> PrevHash b = Hash p \<and>
      Hash b = calculateHash b) \<and>
   generateBlock p txs now \<noteq> Some (Inl e) \<and>
   handleWriteTransaction now' body chain \<noteq> Some (Inr (HttpError 500 ''Invalid block'', chain'))"
proof (intro conjI impI)
  assume "generateBlock p txs now = Some (Inr b)"
  from generateBlock_Some [OF this] obtain k where
    b: "b = mined (candidate p txs now) (of_nat k)"
    by blast
  show "isBlockValid b p"
    by (simp add: b isBlockValid_mined)
  show "Index b = Index p + 1"
    by (simp add: b mined_simps candidate_simps)
  show "PrevHash b = Hash p"
    by (simp add: b mined_simps candidate_simps)
  show "Hash b = calculateHash b"
    by (simp add: b mined_simps calculateHash_mined)
next
  show "generateBlock p txs now \<noteq> Some (Inl e)"
    by (rule generateBlock_no_panic)
  show "handleWriteTransaction now' body chain \<noteq> Some (Inr (HttpError 500 ''Invalid block'', chain'))"
    by (rule handleWriteTransaction_no_500)
qed

theorem generateBlock_passes_isBlockValid_witness:
  "generateBlock (genesisBlock startTime) [aliceToBob] postTime = Some (Inr (mined firstCandidate 1)) \<and>
   isBlockValid (mined firstCandidate 1) (genesisBlock startTime) \<and>
   Index (mined firstCandidate 1) = Index (genesisBlock startTime) + 1 \<and>
   PrevHash (mined firstCandidate 1) = Hash (genesisBlock startTime) \<and>
   Hash (mined firstCandidate 1) = calculateHash (mined firstCandidate 1)"
  using generateBlock_run
    generateBlock_passes_isBlockValid
      [of "genesisBlock startTime" "[aliceToBob]" postTime "mined firstCandidate 1"]
  by blast



text \<open>
  C9. A transaction with an empty sender, an empty receiver or an amount that is not
  positive is answered \<open>400 Invalid transaction\<close>, and the chain is left as it was.
\<close>

theorem invalid_transaction_rejected:
  assumes "Sender t = [] \<or> Receiver t = [] \<or> sint (Amount t) \<le> 0"
  shows "handleWriteTransaction now (Some t) chain =
           Some (Inr (HttpError 400 ''Invalid transaction'', chain)) \<and>
         handleAPIRequests now \<lparr>Method = ''POST'', Body = Some t\<rparr> chain =
           Some (Inr (HttpError 400 ''Invalid transaction'', chain))"
  using assms
  by (auto simp: handleAPIRequests_def handleWriteTransaction_def isTransactionValid_def word_sle_eq)

theorem invalid_transaction_rejected_witness:
  "handleAPIRequests postTime
     \<lparr>Method = ''POST'', Body = Some \<lparr>Sender = [], Receiver = ''bob'', Amount = 10\<rparr>\<rparr>
     (initializeBlockchain startTime []) =
   Some (Inr (HttpError 400 ''Invalid transaction'', initializeBlockchain startTime [])) \<and>
   handleWriteTransaction postTime (Some \<lparr>Sender = ''alice'', Receiver = ''bob'', Amount = - 5\<rparr>)
     [genesisBlock startTime, mined firstCandidate 1] =
   Some (Inr (HttpError 400 ''Invalid transaction'', [genesisBlock startTime, mined firstCandidate 1]))"
  using invalid_transaction_rejected
      [of "\<lparr>Sender = [], Receiver = ''bob'', Amount = 10\<rparr>" postTime "initializeBlockchain startTime []"]
    invalid_transaction_rejected
      [of "\<lparr>Sender = ''alice'', Receiver = ''bob'', Amount = - 5\<rparr>" postTime
          "[genesisBlock startTime, mined firstCandidate 1]"]
  by simp

text \<open>
  C10. The search is a function of the payload: two blocks that agree on index,
  timestamp, previous hash, transactions and difficulty, whatever their nonce and hash
  fields hold, give the same outcome of the search from counter 0, and so the same nonce
  and the same hash where it returns a block.
\<close>

theorem mining_deterministic:
  assumes "samePayload b1 b2"
  shows "mine b1 0 = mine b2 0 \<and>
         (\<forall>r1 r2. mine b1 0 = Some (Inr r1) \<and> mine b2 0 = Some (Inr r2) \<longrightarrow>
            Nonce r1 = Nonce r2 \<and> Hash r1 = Hash r2)"
  using mine_samePayload [OF assms, of 0] by auto

theorem mining_deterministic_witness:
  "samePayload firstCandidate (firstCandidate\<lparr>Nonce := ''7'', Hash := ''ff''\<rparr>) \<and>
   firstCandidate \<noteq> firstCandidate\<lparr>Nonce := ''7'', Hash := ''ff''\<rparr> \<and>
   mine firstCandidate 0 = Some (Inr (mined firstCandidate 1)) \<and>
   mine (firstCandidate\<lparr>Nonce := ''7'', Hash := ''ff''\<rparr>) 0 = Some (Inr (mined firstCandidate 1))"
proof -
  have s: "samePayload firstCandidate (firstCandidate\<lparr>Nonce := ''7'', Hash := ''ff''\<rparr>)"
    by (simp add: samePayload_def)
  have d: "firstCandidate \<noteq> firstCandidate\<lparr>Nonce := ''7'', Hash := ''ff''\<rparr>"
    by (simp add: firstCandidate_def candidate_def)
  have m: "mine firstCandidate 0 = Some (Inr (mined firstCandidate 1))"
    using generateBlock_run by (simp add: generateBlock_def firstCandidate_def)
  from mining_deterministic [OF s] m s d show ?thesis
    by simp
qed

end
